theory Spec2Isabelle
  imports Complex_Main
begin

section \<open>Python strings\<close>

text \<open>
  A Python \<open>str\<close> is a sequence of Unicode code points and \<open>len\<close> counts code points,
  so a string is modelled as a list of code points (natural numbers). \<open>lit\<close> turns an
  ASCII literal of the source into such a list.
\<close>

type_synonym pystr = "nat list"

definition lit :: "string \<Rightarrow> pystr" where
  "lit s = map of_char s"

text \<open>
  \<open>str.isspace\<close> for one code point, the test \<open>str.strip()\<close> uses with no argument:
  the code points CPython lists as whitespace.
\<close>

definition is_space :: "nat \<Rightarrow> bool" where
  "is_space c =
     ((9 \<le> c \<and> c \<le> 13) \<or> (28 \<le> c \<and> c \<le> 32) \<or> c = 133 \<or> c = 160 \<or> c = 5760
      \<or> (8192 \<le> c \<and> c \<le> 8202) \<or> c = 8232 \<or> c = 8233 \<or> c = 8239 \<or> c = 8287
      \<or> c = 12288)"

definition lstrip :: "pystr \<Rightarrow> pystr" where
  "lstrip s = dropWhile is_space s"

definition rstrip :: "pystr \<Rightarrow> pystr" where
  "rstrip s = rev (dropWhile is_space (rev s))"

text \<open>\<open>s.strip()\<close>: leading and trailing whitespace removed.\<close>

definition strip :: "pystr \<Rightarrow> pystr" where
  "strip s = rstrip (lstrip s)"

text \<open>
  \<open>text.split('\n\n')\<close>: the text is scanned from the left, every occurrence of two
  consecutive line feeds (code point 10) found that way ends a piece, and the scan goes on
  after it. \<open>cur\<close> holds the piece being read, reversed. The result is never empty: the
  empty text gives one empty piece.
\<close>

fun split_scan :: "pystr \<Rightarrow> pystr \<Rightarrow> pystr list" where
  "split_scan cur [] = [rev cur]"
| "split_scan cur [a] = [rev (a # cur)]"
| "split_scan cur (a # b # rest) =
     (if a = 10 \<and> b = 10 then rev cur # split_scan [] rest
      else split_scan (a # cur) (b # rest))"

definition split_paragraphs :: "pystr \<Rightarrow> pystr list" where
  "split_paragraphs t = split_scan [] t"

text \<open>\<open>str(n)\<close> for a non-negative integer: its decimal digits.\<close>

fun str_of_nat :: "nat \<Rightarrow> pystr" where
  "str_of_nat n = (if n < 10 then [48 + n] else str_of_nat (n div 10) @ [48 + n mod 10])"

declare str_of_nat.simps [simp del]

section \<open>Chunking: \<open>process_text\<close>\<close>

text \<open>The dictionaries \<open>{"title": ..., "content": ...}\<close> the chunker builds.\<close>

record chunk =
  title :: pystr
  content :: pystr

text \<open>The f-string \<open>f"{filename} - Section {i+1}"\<close>.\<close>

definition section_title :: "pystr \<Rightarrow> nat \<Rightarrow> pystr" where
  "section_title filename i = filename @ lit '' - Section '' @ str_of_nat (i + 1)"

text \<open>
  The loop \<open>for i, p in enumerate(paragraphs)\<close>: \<open>i\<close> counts every paragraph of the
  split, \<open>chunks\<close> is the list built so far, extended at its end by \<open>append\<close>.
\<close>

fun process_loop :: "pystr \<Rightarrow> nat \<Rightarrow> pystr list \<Rightarrow> chunk list \<Rightarrow> chunk list" where
  "process_loop filename i [] chunks = chunks"
| "process_loop filename i (p # ps) chunks =
     process_loop filename (Suc i) ps
       (if length (strip p) > 20
        then chunks @ [\<lparr>title = section_title filename i, content = strip p\<rparr>]
        else chunks)"

definition process_text :: "pystr \<Rightarrow> pystr \<Rightarrow> chunk list" where
  "process_text t filename = process_loop filename 0 (split_paragraphs t) []"

text \<open>
  The reading of the specification: the paragraphs of the split whose trimmed length
  exceeds 20, in their order in the text.
\<close>

definition qualifying_paragraphs :: "pystr \<Rightarrow> pystr list" where
  "qualifying_paragraphs t = filter (\<lambda>p. 20 < length (strip p)) (split_paragraphs t)"

text \<open>
  \<open>'\n\n'.join(pieces)\<close>, used to state that the split loses nothing of the text.
\<close>

fun join_paragraphs :: "pystr list \<Rightarrow> pystr" where
  "join_paragraphs [] = []"
| "join_paragraphs [p] = p"
| "join_paragraphs (p # q # ps) = p @ [10, 10] @ join_paragraphs (q # ps)"

text \<open>
  A text contains a blank-line boundary when two line feeds stand next to each other in
  it. Used to state where the split cuts.
\<close>

fun has_blank_line :: "pystr \<Rightarrow> bool" where
  "has_blank_line (a # b # rest) = ((a = 10 \<and> b = 10) \<or> has_blank_line (b # rest))"
| "has_blank_line [a] = False"
| "has_blank_line [] = False"

text \<open>
  A text of three paragraphs, the second of them too short to be kept, and the third
  with blanks around it.
\<close>

definition demo_text :: pystr where
  "demo_text = lit ''Meals covered up to $50/day.'' @ [10, 10] @ lit ''short''
       @ [10, 10] @ lit ''  Hotels up to $200/night. ''"

section \<open>Retrieval: \<open>find_best_match\<close>\<close>

text \<open>
  The exceptions of a turn: \<open>ValueError\<close> from \<open>np.dot\<close> on arrays of different
  lengths, and \<open>APIError\<close> for a call of the client that raises.
\<close>

datatype error = ValueError | APIError

text \<open>
  The value of a NumPy \<open>float32\<close> (or of the Python integer \<open>-1\<close> it is compared with):
  a real number, an infinity or NaN. \<open>fl_gt x y\<close> is the comparison \<open>x > y\<close> of IEEE 754:
  false as soon as one side is NaN.
\<close>

datatype np_float = NaN | NegInf | Fin real | PosInf

fun fl_gt :: "np_float \<Rightarrow> np_float \<Rightarrow> bool" where
  "fl_gt NaN y = False"
| "fl_gt x NaN = False"
| "fl_gt NegInf y = False"
| "fl_gt x NegInf = True"
| "fl_gt PosInf PosInf = False"
| "fl_gt PosInf (Fin y) = True"
| "fl_gt (Fin x) PosInf = False"
| "fl_gt (Fin x) (Fin y) = (y < x)"

text \<open>
  \<open>embed_model.encode\<close> maps a text to an array, of a type \<open>'v\<close> left open. \<open>np.dot\<close> is
  NumPy's and not part of the program: it is a parameter of the model, the function that
  gives for two arrays the \<open>float32\<close> NumPy computes, rounded as NumPy rounds it, or the
  exception it raises. What is proved of \<open>find_best_match\<close> holds for every such function.
\<close>

type_synonym 'v embed_model = "pystr \<Rightarrow> 'v"

type_synonym 'v dot_fun = "'v \<Rightarrow> 'v \<Rightarrow> error + np_float"

text \<open>
  The loop \<open>for doc in documents\<close>, with the variables \<open>best_doc\<close> and \<open>highest_score\<close>
  it updates. \<open>calls\<close> records every text handed to \<open>encode\<close>, in order.
\<close>

fun best_loop ::
  "'v dot_fun \<Rightarrow> 'v embed_model \<Rightarrow> 'v \<Rightarrow> chunk list \<Rightarrow> chunk option \<Rightarrow> np_float \<Rightarrow> pystr list
     \<Rightarrow> (error + chunk option) \<times> pystr list" where
  "best_loop np_dot encode query_embed [] best_doc highest_score calls = (Inr best_doc, calls)"
| "best_loop np_dot encode query_embed (doc # docs) best_doc highest_score calls =
     (case np_dot query_embed (encode (content doc)) of
        Inl e \<Rightarrow> (Inl e, calls @ [content doc])
      | Inr score \<Rightarrow>
          if fl_gt score highest_score
          then best_loop np_dot encode query_embed docs (Some doc) score (calls @ [content doc])
          else best_loop np_dot encode query_embed docs best_doc highest_score
                 (calls @ [content doc]))"

text \<open>
  The result is the value returned (\<open>None\<close> of Python is \<open>None\<close>) or the exception
  raised, paired with the texts that were encoded.
\<close>

definition find_best_match ::
  "'v dot_fun \<Rightarrow> pystr \<Rightarrow> chunk list \<Rightarrow> 'v embed_model \<Rightarrow> (error + chunk option) \<times> pystr list" where
  "find_best_match np_dot query documents encode =
     (if documents = [] then (Inr None, [])
      else best_loop np_dot encode (encode query) documents None (Fin (- 1)) [query])"

text \<open>
  For the concrete runs below: arrays with small integer entries, written as lists of
  integers. On such arrays every product and every partial sum is a small integer, which
  \<open>float32\<close> represents exactly, so \<open>np.dot\<close> gives the exact sum of products.
\<close>

definition exact_int_dot :: "int list dot_fun" where
  "exact_int_dot u v =
     (if length u = length v then Inr (Fin (of_int (sum_list (map2 (*) u v))))
      else Inl ValueError)"

text \<open>
  Two stubbed embedding functions with hand-chosen unit vectors: \<open>stub_encode\<close> sends the
  query \<open>q\<close> to \<open>[1]\<close> and every other text to \<open>[-1]\<close>; \<open>scenario_encode\<close> separates the
  meals paragraph from everything else.
\<close>

definition stub_encode :: "int list embed_model" where
  "stub_encode t = (if t = lit ''q'' then [1] else [- 1])"

definition scenario_encode :: "int list embed_model" where
  "scenario_encode t = (if t = lit ''Meals covered up to $50/day.'' then [1, 0] else [0, 1])"

definition meals_chunk :: chunk where
  "meals_chunk = \<lparr>title = lit ''Demo - Section 1'', content = lit ''Meals covered up to $50/day.''\<rparr>"

definition hotels_chunk :: chunk where
  "hotels_chunk = \<lparr>title = lit ''Demo - Section 2'', content = lit ''Hotels up to $200/night.''\<rparr>"

definition hotels_copy :: chunk where
  "hotels_copy = \<lparr>title = lit ''Copy - Section 1'', content = lit ''Hotels up to $200/night.''\<rparr>"

section \<open>Query rewriting: \<open>rewrite_query\<close>\<close>

text \<open>The dictionaries \<open>{"role": ..., "content": ...}\<close> of the chat.\<close>

record message =
  role :: pystr
  msg_content :: pystr

text \<open>The keyword arguments of \<open>client.chat.completions.create\<close>.\<close>

record request =
  req_messages :: "message list"
  req_model :: pystr
  req_temperature :: real

text \<open>
  The client, for one call of \<open>client.chat.completions.create\<close>: the text
  \<open>response.choices[0].message.content\<close> when the call returns, or the exception when it
  raises. The answers are not fixed by the program (the sampling temperature is positive),
  so every statement below holds for every such function.
\<close>

type_synonym groq_client = "request \<Rightarrow> error + pystr"

text \<open>The loop \<open>for msg in chat_history[-2:]\<close> building \<open>history_str\<close>.\<close>

fun history_loop :: "message list \<Rightarrow> pystr \<Rightarrow> pystr" where
  "history_loop [] history_str = history_str"
| "history_loop (msg # msgs) history_str =
     history_loop msgs (history_str @ role msg @ lit '': '' @ msg_content msg @ [10])"

definition rewrite_system_prompt :: pystr where
  "rewrite_system_prompt =
     [10] @ lit ''    Rewrite the following question to be self-contained based on the history. ''
     @ [10] @ lit ''    If the question is already clear, return it as is. ''
     @ [10] @ lit ''    Do NOT answer the question, just rewrite it for a search engine.''
     @ [10] @ lit ''    ''"

text \<open>
  The result is the rewritten query, or the exception the call raised (nothing in the
  function catches it), and the requests sent to the client.
\<close>

definition rewrite_query ::
  "pystr \<Rightarrow> message list \<Rightarrow> groq_client \<Rightarrow> (error + pystr) \<times> request list" where
  "rewrite_query user_input chat_history client =
     (if chat_history = [] then (Inr user_input, [])
      else
        (let history_str = history_loop (drop (length chat_history - 2) chat_history) [];
             req = \<lparr>req_messages =
                      [\<lparr>role = lit ''system'', msg_content = rewrite_system_prompt\<rparr>,
                       \<lparr>role = lit ''user'',
                        msg_content = lit ''History:'' @ [10] @ history_str @ [10, 10]
                          @ lit ''Question: '' @ user_input\<rparr>],
                    req_model = lit ''llama-3.3-70b-versatile'',
                    req_temperature = 3 / 10\<rparr>
         in (client req, [req])))"

section \<open>The chat turn\<close>

text \<open>What the turn shows to the user, in order.\<close>

datatype ui_event =
    ChatMessage pystr pystr
  | StatusOpen pystr
  | StatusWrite pystr
  | StatusUpdate pystr pystr "bool option"
  | Warning pystr
  | Error pystr
  | SidebarSuccess pystr

text \<open>
  The outcome of one run of the block under \<open>if prompt := st.chat_input(...)\<close>:
  \<open>st.session_state.messages\<close> after it, what was shown, the requests sent to the
  client, the texts encoded, and the exception that ended the turn, if any.
\<close>

record turn_result =
  transcript :: "message list"
  shown :: "ui_event list"
  llm_requests :: "request list"
  encode_calls :: "pystr list"
  raised :: "error option"

definition context_text :: "chunk \<Rightarrow> pystr" where
  "context_text best_match =
     lit ''Source: '' @ title best_match @ [10] @ lit ''Content: '' @ content best_match"

definition system_msg :: "chunk \<Rightarrow> pystr" where
  "system_msg best_match =
     [10] @ lit ''            You are a helpful assistant. Use the following context to answer the user''
     @ [39] @ lit ''s question.''
     @ [10] @ lit ''            ''
     @ [10] @ lit ''            CONTEXT:''
     @ [10] @ lit ''            '' @ context_text best_match
     @ [10] @ lit ''            ''"

text \<open>The loop \<open>for msg in st.session_state.messages: full_messages.append(msg)\<close>.\<close>

fun append_loop :: "message list \<Rightarrow> message list \<Rightarrow> message list" where
  "append_loop full_messages [] = full_messages"
| "append_loop full_messages (msg # msgs) = append_loop (full_messages @ [msg]) msgs"

definition not_found_warning :: pystr where
  "not_found_warning =
     lit ''I couldn'' @ [39] @ lit ''t find information about that in the documents.''"

text \<open>
  \<open>st.chat_input\<close> gives \<open>None\<close> or the text the user sent; the block runs when the
  value is truthy, that is, a non-empty string. Nothing in the block catches an exception:
  one raised by the rewriting, by the search or by the generation call ends the turn where
  it is raised, and \<open>st.session_state.messages\<close> is written only after the generation
  call has returned.
\<close>

definition chat_turn ::
  "'v dot_fun \<Rightarrow> pystr option \<Rightarrow> message list \<Rightarrow> chunk list \<Rightarrow> groq_client \<Rightarrow> 'v embed_model
     \<Rightarrow> turn_result" where
  "chat_turn np_dot chat_input messages documents client encode =
     (case chat_input of
        None \<Rightarrow>
          \<lparr>transcript = messages, shown = [], llm_requests = [], encode_calls = [],
           raised = None\<rparr>
      | Some prompt \<Rightarrow>
          if prompt = [] then
            \<lparr>transcript = messages, shown = [], llm_requests = [], encode_calls = [],
             raised = None\<rparr>
          else
            (let rewritten = rewrite_query prompt messages client;
                 ui0 = [ChatMessage (lit ''user'') prompt,
                        StatusOpen (lit ''Thinking...''),
                        StatusWrite (lit ''Understanding context...'')]
             in case fst rewritten of
                  Inl e \<Rightarrow>
                    \<lparr>transcript = messages, shown = ui0, llm_requests = snd rewritten,
                     encode_calls = [], raised = Some e\<rparr>
                | Inr search_query \<Rightarrow>
                    (let ui = ui0 @ [StatusWrite (lit ''Searching for: *'' @ [39] @ search_query
                                       @ [39] @ lit ''*'')];
                         found = find_best_match np_dot search_query documents encode
                     in case fst found of
                          Inl e \<Rightarrow>
                            \<lparr>transcript = messages, shown = ui, llm_requests = snd rewritten,
                             encode_calls = snd found, raised = Some e\<rparr>
                        | Inr None \<Rightarrow>
                            \<lparr>transcript = messages,
                             shown = ui @ [Warning not_found_warning,
                               StatusUpdate (lit ''No info found'') (lit ''error'') None],
                             llm_requests = snd rewritten, encode_calls = snd found,
                             raised = None\<rparr>
                        | Inr (Some best_match) \<Rightarrow>
                            (let full_messages =
                                   append_loop [\<lparr>role = lit ''system'',
                                                 msg_content = system_msg best_match\<rparr>] messages
                                   @ [\<lparr>role = lit ''user'', msg_content = prompt\<rparr>];
                                 req = \<lparr>req_messages = full_messages,
                                        req_model = lit ''llama-3.3-70b-versatile'',
                                        req_temperature = 1 / 2\<rparr>
                             in case client req of
                                  Inl e \<Rightarrow>
                                    \<lparr>transcript = messages,
                                     shown = ui @ [StatusWrite (lit ''Found relevant info!'')],
                                     llm_requests = snd rewritten @ [req],
                                     encode_calls = snd found, raised = Some e\<rparr>
                                | Inr response_text \<Rightarrow>
                                    \<lparr>transcript = messages
                                       @ [\<lparr>role = lit ''user'', msg_content = prompt\<rparr>]
                                       @ [\<lparr>role = lit ''assistant'',
                                           msg_content = response_text\<rparr>],
                                     shown = ui @ [StatusWrite (lit ''Found relevant info!''),
                                       ChatMessage (lit ''assistant'') response_text,
                                       StatusUpdate (lit ''Complete!'') (lit ''complete'')
                                         (Some False)],
                                     llm_requests = snd rewritten @ [req],
                                     encode_calls = snd found, raised = None\<rparr>))))"

text \<open>
  Two clients for the concrete turns below: one with a canned answer, one whose every call
  raises.
\<close>

definition canned_client :: groq_client where
  "canned_client req = Inr (lit ''Hotels are covered up to $200 per night.'')"

definition failing_client :: groq_client where
  "failing_client req = Inl APIError"

section \<open>Loading the documents\<close>

text \<open>
  An uploaded file, as far as the program looks at it: its name, and what reading it
  gives. \<open>pdf_pages\<close> is the list of the texts of the pages (\<open>page.extract_text()\<close> for
  each page of \<open>pypdf.PdfReader\<close>), \<open>decoded\<close> is \<open>read().decode("utf-8")\<close>; either is
  \<open>Inl\<close> with the text of the exception when reading raises.
\<close>

record uploaded_file =
  name :: pystr
  pdf_pages :: "pystr + pystr list"
  decoded :: "pystr + pystr"

definition endswith :: "pystr \<Rightarrow> pystr \<Rightarrow> bool" where
  "endswith s suffix =
     (length suffix \<le> length s \<and> drop (length s - length suffix) s = suffix)"

text \<open>The loop \<open>for page in reader.pages: text += page.extract_text() + "\n\n"\<close>.\<close>

fun pages_loop :: "pystr list \<Rightarrow> pystr \<Rightarrow> pystr" where
  "pages_loop [] t = t"
| "pages_loop (page # pages) t = pages_loop pages (t @ page @ [10, 10])"

text \<open>The chunks of a file, and the error shown when reading it fails.\<close>

definition process_file :: "uploaded_file \<Rightarrow> chunk list \<times> ui_event list" where
  "process_file f =
     (if endswith (name f) (lit ''.pdf'') then
        (case pdf_pages f of
           Inl e \<Rightarrow> ([], [Error (lit ''Error reading file: '' @ e)])
         | Inr pages \<Rightarrow> (process_text (pages_loop pages []) (name f), []))
      else
        (case decoded f of
           Inl e \<Rightarrow> ([], [Error (lit ''Error reading file: '' @ e)])
         | Inr t \<Rightarrow> (process_text t (name f), [])))"

text \<open>The loop \<open>for file in uploaded_files: documents.extend(process_file(file))\<close>.\<close>

fun files_loop ::
  "uploaded_file list \<Rightarrow> chunk list \<Rightarrow> ui_event list \<Rightarrow> chunk list \<times> ui_event list" where
  "files_loop [] documents ui = (documents, ui)"
| "files_loop (file # files) documents ui =
     files_loop files (documents @ fst (process_file file)) (ui @ snd (process_file file))"

definition demo_documents :: "chunk list" where
  "demo_documents =
     [\<lparr>title = lit ''Demo: Travel'',
       content = lit ''Meals covered up to $50/day. Hotels up to $200/night.''\<rparr>]"

text \<open>
  The initialisation of \<open>documents\<close>: \<open>st.file_uploader\<close> with
  \<open>accept_multiple_files=True\<close> gives the list of the uploaded files, empty when there
  are none.
\<close>

definition load_documents :: "uploaded_file list \<Rightarrow> chunk list \<times> ui_event list" where
  "load_documents uploaded_files =
     (if uploaded_files \<noteq> [] then
        (let loaded = files_loop uploaded_files [] []
         in (fst loaded,
             snd loaded @ [SidebarSuccess (lit ''Loaded '' @ str_of_nat (length (fst loaded))
               @ lit '' text chunks!'')]))
      else (demo_documents, []))"

text \<open>A text file that cannot be decoded, and one with a single short line.\<close>

definition broken_file :: uploaded_file where
  "broken_file = \<lparr>name = lit ''notes.txt'', pdf_pages = Inr [],
     decoded = Inl (lit ''invalid start byte'')\<rparr>"

definition short_file :: uploaded_file where
  "short_file = \<lparr>name = lit ''memo.txt'', pdf_pages = Inr [], decoded = Inr (lit ''See above.'')\<rparr>"

section \<open>Properties of the chunker\<close>

subsection \<open>Splitting and trimming\<close>

lemma split_scan_nonempty: "split_scan cur t \<noteq> []"
  by (induction cur t rule: split_scan.induct) simp_all

lemma join_cons: "ps \<noteq> [] \<Longrightarrow> join_paragraphs (p # ps) = p @ [10, 10] @ join_paragraphs ps"
  by (cases ps) simp_all

lemma join_split_scan: "join_paragraphs (split_scan cur t) = rev cur @ t"
  by (induction cur t rule: split_scan.induct) (simp_all add: join_cons split_scan_nonempty)

lemma join_split_paragraphs: "join_paragraphs (split_paragraphs t) = t"
  by (simp add: split_paragraphs_def join_split_scan)

lemma split_paragraphs_empty: "split_paragraphs [] = [[]]"
  by (simp add: split_paragraphs_def)

lemma rstrip_hd:
  assumes ne: "rstrip xs \<noteq> []"
  shows "hd (rstrip xs) = hd xs"
proof -
  have "xs = rstrip xs @ rev (takeWhile is_space (rev xs))"
    unfolding rstrip_def
    by (metis rev_append rev_rev_ident takeWhile_dropWhile_id)
  then have "hd xs = hd (rstrip xs @ rev (takeWhile is_space (rev xs)))"
    by simp
  with ne show ?thesis by simp
qed

lemma rstrip_idem: "rstrip (rstrip xs) = rstrip xs"
  by (simp add: rstrip_def)

lemma lstrip_strip: "lstrip (strip s) = strip s"
proof (cases "strip s = []")
  case True
  then show ?thesis by (simp add: lstrip_def)
next
  case False
  then have ne: "rstrip (lstrip s) \<noteq> []"
    by (simp add: strip_def)
  then have l_ne: "lstrip s \<noteq> []"
    by (auto simp: rstrip_def)
  have "hd (strip s) = hd (lstrip s)"
    using rstrip_hd [OF ne] by (simp add: strip_def)
  moreover have "\<not> is_space (hd (lstrip s))"
    using l_ne hd_dropWhile [of is_space s] by (simp add: lstrip_def)
  ultimately show ?thesis
    by (simp add: lstrip_def dropWhile_eq_self_iff)
qed

lemma strip_idem: "strip (strip s) = strip s"
proof -
  have "strip (strip s) = rstrip (lstrip (strip s))"
    by (simp add: strip_def)
  also have "\<dots> = rstrip (strip s)"
    by (simp only: lstrip_strip)
  also have "\<dots> = strip s"
    by (simp add: strip_def rstrip_idem)
  finally show ?thesis .
qed

text \<open>
  Where the split cuts: no piece but the last can be extended by a line feed without
  running into a blank-line boundary, that is, every cut is at the leftmost boundary of
  what is left of the text, and the last piece has no boundary in it.
\<close>

lemma has_blank_line_snoc:
  "has_blank_line (xs @ [a, b]) = (has_blank_line (xs @ [a]) \<or> (a = 10 \<and> b = 10))"
  by (induction xs rule: has_blank_line.induct) auto

lemma split_scan_cuts:
  assumes "\<not> has_blank_line (rev cur @ take 1 t)"
  shows "list_all (\<lambda>p. \<not> has_blank_line (p @ [10])) (butlast (split_scan cur t))
    \<and> \<not> has_blank_line (last (split_scan cur t))"
  using assms
proof (induction cur t rule: split_scan.induct)
  case (1 cur)
  then show ?case by simp
next
  case (2 cur a)
  then show ?case by simp
next
  case (3 cur a b rest)
  show ?case
  proof (cases "a = 10 \<and> b = 10")
    case True
    have start: "\<not> has_blank_line (rev [] @ take 1 rest)"
      by (cases rest) simp_all
    from True "3.prems" have first: "\<not> has_blank_line (rev cur @ [10])"
      by simp
    from "3.IH"(1) [OF True start] first True show ?thesis
      by (simp add: split_scan_nonempty)
  next
    case False
    from "3.prems" False have "\<not> has_blank_line (rev (a # cur) @ take 1 (b # rest))"
      by (simp add: has_blank_line_snoc)
    then have rest: "list_all (\<lambda>p. \<not> has_blank_line (p @ [10]))
          (butlast (split_scan (a # cur) (b # rest)))
        \<and> \<not> has_blank_line (last (split_scan (a # cur) (b # rest)))"
      by (rule "3.IH"(2) [OF False])
    from False have step: "split_scan cur (a # b # rest) = split_scan (a # cur) (b # rest)"
      by auto
    from rest show ?thesis
      unfolding step .
  qed
qed

lemma split_paragraphs_cuts:
  "list_all (\<lambda>p. \<not> has_blank_line (p @ [10])) (butlast (split_paragraphs t))
    \<and> \<not> has_blank_line (last (split_paragraphs t))"
proof -
  have "\<not> has_blank_line (rev [] @ take 1 t)"
    by (cases t) simp_all
  from split_scan_cuts [OF this] show ?thesis
    by (simp add: split_paragraphs_def)
qed

text \<open>What trimming removes: whitespace at both ends, and all of it.\<close>

lemma rstrip_decomp: "xs = rstrip xs @ rev (takeWhile is_space (rev xs))"
  unfolding rstrip_def
  by (metis rev_append rev_rev_ident takeWhile_dropWhile_id)

lemma rstrip_last:
  assumes "rstrip xs \<noteq> []"
  shows "\<not> is_space (last (rstrip xs))"
proof -
  from assms have ne: "dropWhile is_space (rev xs) \<noteq> []"
    by (simp add: rstrip_def)
  then have "\<not> is_space (hd (dropWhile is_space (rev xs)))"
    by (rule hd_dropWhile)
  with ne show ?thesis
    by (simp add: rstrip_def last_rev)
qed

lemma strip_decomp:
  "\<exists>l r. p = l @ strip p @ r \<and> list_all is_space l \<and> list_all is_space r"
proof -
  let ?l = "takeWhile is_space p"
  let ?r = "rev (takeWhile is_space (rev (lstrip p)))"
  have "p = ?l @ lstrip p"
    by (simp add: lstrip_def)
  also have "lstrip p = strip p @ ?r"
    using rstrip_decomp [of "lstrip p"] by (simp add: strip_def)
  finally have "p = ?l @ strip p @ ?r" .
  moreover have "list_all is_space ?l"
    by (auto simp: list_all_iff dest: set_takeWhileD)
  moreover have "list_all is_space ?r"
    by (auto simp: list_all_iff dest: set_takeWhileD)
  ultimately show ?thesis by blast
qed

lemma strip_ends:
  "strip p = [] \<or> (\<not> is_space (hd (strip p)) \<and> \<not> is_space (last (strip p)))"
proof (cases "strip p = []")
  case True
  then show ?thesis by simp
next
  case False
  have "dropWhile is_space (strip p) = strip p"
    using lstrip_strip [of p] by (simp add: lstrip_def)
  with False have "\<not> is_space (hd (strip p))"
    by (simp add: dropWhile_eq_self_iff)
  moreover from False have "\<not> is_space (last (strip p))"
    using rstrip_last [of "lstrip p"] by (simp add: strip_def)
  ultimately show ?thesis by simp
qed

subsection \<open>The loop of \<open>process_text\<close>\<close>

lemma process_loop_content:
  "map content (process_loop f i ps acc) =
     map content acc @ map strip (filter (\<lambda>p. 20 < length (strip p)) ps)"
  by (induction ps arbitrary: i acc) simp_all

lemma upt_shift: "[0..<Suc n] = 0 # map Suc [0..<n]"
  by (simp only: map_Suc_upt upt_conv_Cons zero_less_Suc)

lemma process_loop_index:
  "process_loop f i ps acc =
     acc @ map (\<lambda>k. \<lparr>title = section_title f (i + k), content = strip (ps ! k)\<rparr>)
             (filter (\<lambda>k. 20 < length (strip (ps ! k))) [0..<length ps])"
proof (induction ps arbitrary: i acc)
  case Nil
  show ?case by simp
next
  case (Cons p ps)
  have idx: "[0..<length (p # ps)] = 0 # map Suc [0..<length ps]"
    using upt_shift [of "length ps"] by simp
  show ?case
    unfolding idx by (simp add: Cons.IH filter_map comp_def)
qed

lemma process_text_content:
  "map content (process_text t f) = map strip (qualifying_paragraphs t)"
  by (simp add: process_text_def process_loop_content qualifying_paragraphs_def)

lemma process_text_demo:
  "process_text demo_text (lit ''Demo'') =
     [\<lparr>title = lit ''Demo - Section 1'', content = lit ''Meals covered up to $50/day.''\<rparr>,
      \<lparr>title = lit ''Demo - Section 3'', content = lit ''Hotels up to $200/night.''\<rparr>]"
  by (simp add: demo_text_def lit_def process_text_def split_paragraphs_def strip_def
      lstrip_def rstrip_def is_space_def section_title_def str_of_nat.simps)

lemma split_paragraphs_demo:
  "split_paragraphs demo_text =
     [lit ''Meals covered up to $50/day.'', lit ''short'', lit ''  Hotels up to $200/night. '']"
  by (simp add: demo_text_def lit_def split_paragraphs_def)

text \<open>
  The scenario of the specification: two paragraphs above the threshold give the chunks
  \<open>Demo - Section 1\<close> and \<open>Demo - Section 2\<close>.
\<close>

lemma process_text_scenario:
  "process_text (lit ''Meals covered up to $50/day.'' @ [10, 10] @ lit ''Hotels up to $200/night.'')
       (lit ''Demo'') =
     [\<lparr>title = lit ''Demo - Section 1'', content = lit ''Meals covered up to $50/day.''\<rparr>,
      \<lparr>title = lit ''Demo - Section 2'', content = lit ''Hotels up to $200/night.''\<rparr>]"
  by (simp add: lit_def process_text_def split_paragraphs_def strip_def
      lstrip_def rstrip_def is_space_def section_title_def str_of_nat.simps)

subsection \<open>Claims about the chunker\<close>

text \<open>
  Claim C2. Every chunk that \<open>process_text\<close> returns has a content that is already
  trimmed and longer than 20 characters, and it is the trimmed form of a paragraph of the
  split whose trimmed length exceeds 20: no paragraph at or under the threshold is emitted.
\<close>

theorem process_text_over_threshold:
  assumes "c \<in> set (process_text t f)"
  shows "20 < length (strip (content c)) \<and> strip (content c) = content c
    \<and> (\<exists>p \<in> set (split_paragraphs t). content c = strip p \<and> 20 < length (strip p))"
proof -
  from assms have "content c \<in> set (map content (process_text t f))"
    by simp
  then have "content c \<in> set (map strip (qualifying_paragraphs t))"
    by (simp only: process_text_content)
  then obtain p where p: "p \<in> set (split_paragraphs t)" "20 < length (strip p)"
      "content c = strip p"
    by (auto simp: qualifying_paragraphs_def)
  from p(3) have "strip (content c) = content c"
    by (simp add: strip_idem)
  with p show ?thesis by auto
qed

theorem process_text_over_threshold_witness:
  "\<lparr>title = lit ''Demo - Section 3'', content = lit ''Hotels up to $200/night.''\<rparr>
      \<in> set (process_text demo_text (lit ''Demo''))
   \<and> 20 < length (strip (lit ''Hotels up to $200/night.''))
   \<and> strip (lit ''Hotels up to $200/night.'') = lit ''Hotels up to $200/night.''"
proof -
  have mem: "\<lparr>title = lit ''Demo - Section 3'', content = lit ''Hotels up to $200/night.''\<rparr>
      \<in> set (process_text demo_text (lit ''Demo''))"
    by (simp add: process_text_demo)
  have "20 < length (strip (lit ''Hotels up to $200/night.''))
      \<and> strip (lit ''Hotels up to $200/night.'') = lit ''Hotels up to $200/night.''"
    using process_text_over_threshold [OF mem] unfolding chunk.select_convs by blast
  with mem show ?thesis by blast
qed

text \<open>
  Claim C3. The number of chunks equals the number of paragraphs of the blank-line split
  whose trimmed length exceeds 20, the contents of the chunks are those paragraphs,
  trimmed, in the order of the text, and the empty text gives no chunk. Here the
  paragraphs are the pieces of the text between blank-line boundaries, in the order of the
  text: joined again by \<open>"\n\n"\<close> they are the text, each cut is at the leftmost boundary
  left, and the last piece holds no boundary. Trimming a paragraph \<open>p\<close> takes whitespace
  off both ends and leaves none at either end. On \<open>demo_text\<close> the three paragraphs of the
  split give two chunks, the first and the third, the third without the blanks around it.
\<close>

theorem process_text_count_and_order:
  "length (process_text t f) = length (qualifying_paragraphs t)
   \<and> map content (process_text t f) = map strip (qualifying_paragraphs t)
   \<and> process_text [] f = []
   \<and> qualifying_paragraphs t = filter (\<lambda>p. 20 < length (strip p)) (split_paragraphs t)
   \<and> join_paragraphs (split_paragraphs t) = t
   \<and> list_all (\<lambda>p. \<not> has_blank_line (p @ [10])) (butlast (split_paragraphs t))
   \<and> \<not> has_blank_line (last (split_paragraphs t))
   \<and> (\<exists>l r. p = l @ strip p @ r \<and> list_all is_space l \<and> list_all is_space r)
   \<and> (strip p = [] \<or> (\<not> is_space (hd (strip p)) \<and> \<not> is_space (last (strip p))))
   \<and> split_paragraphs demo_text =
       [lit ''Meals covered up to $50/day.'', lit ''short'', lit ''  Hotels up to $200/night. '']
   \<and> map content (process_text demo_text (lit ''Demo'')) =
       [lit ''Meals covered up to $50/day.'', lit ''Hotels up to $200/night.'']"
proof -
  have a: "map content (process_text t f) = map strip (qualifying_paragraphs t)"
    by (rule process_text_content)
  have "length (map content (process_text t f)) = length (map strip (qualifying_paragraphs t))"
    by (simp only: a)
  then have b: "length (process_text t f) = length (qualifying_paragraphs t)"
    by simp
  have c: "process_text [] f = []"
    by (simp add: process_text_def split_paragraphs_def strip_def lstrip_def rstrip_def)
  have d: "qualifying_paragraphs t = filter (\<lambda>p. 20 < length (strip p)) (split_paragraphs t)"
    by (simp add: qualifying_paragraphs_def)
  have e: "join_paragraphs (split_paragraphs t) = t"
    by (rule join_split_paragraphs)
  have g: "list_all (\<lambda>p. \<not> has_blank_line (p @ [10])) (butlast (split_paragraphs t))
      \<and> \<not> has_blank_line (last (split_paragraphs t))"
    by (rule split_paragraphs_cuts)
  have h: "\<exists>l r. p = l @ strip p @ r \<and> list_all is_space l \<and> list_all is_space r"
    by (rule strip_decomp)
  have k: "strip p = [] \<or> (\<not> is_space (hd (strip p)) \<and> \<not> is_space (last (strip p)))"
    by (rule strip_ends)
  have m: "split_paragraphs demo_text =
       [lit ''Meals covered up to $50/day.'', lit ''short'', lit ''  Hotels up to $200/night. '']"
    by (rule split_paragraphs_demo)
  have n: "map content (process_text demo_text (lit ''Demo'')) =
       [lit ''Meals covered up to $50/day.'', lit ''Hotels up to $200/night.'']"
    by (simp add: process_text_demo)
  from a b c d e g h k m n show ?thesis
    by blast
qed

text \<open>
  Claim C9. The section number in a title is the position of the paragraph in the raw
  split plus one, not the position among the emitted chunks: the chunks are exactly the
  paragraphs \<open>k\<close> of the split over the threshold, each titled with \<open>k + 1\<close>. In
  \<open>demo_text\<close> the second paragraph is dropped and the titles read Section 1, Section 3.
\<close>

theorem process_text_section_numbers:
  "process_text t f =
     map (\<lambda>k. \<lparr>title = f @ lit '' - Section '' @ str_of_nat (k + 1),
               content = strip (split_paragraphs t ! k)\<rparr>)
       (filter (\<lambda>k. 20 < length (strip (split_paragraphs t ! k)))
          [0..<length (split_paragraphs t)])
   \<and> map title (process_text demo_text (lit ''Demo'')) =
       [lit ''Demo - Section 1'', lit ''Demo - Section 3'']"
proof -
  have "process_text t f =
     map (\<lambda>k. \<lparr>title = section_title f k, content = strip (split_paragraphs t ! k)\<rparr>)
       (filter (\<lambda>k. 20 < length (strip (split_paragraphs t ! k)))
          [0..<length (split_paragraphs t)])"
    using process_loop_index [of f 0 "split_paragraphs t" "[]"]
    by (simp add: process_text_def)
  then show ?thesis
    by (simp add: section_title_def process_text_demo)
qed

section \<open>Properties of the retrieval\<close>

subsection \<open>The comparison of scores\<close>

lemma fl_gt_trans: "fl_gt a b \<Longrightarrow> fl_gt b c \<Longrightarrow> fl_gt a c"
  by (cases a; cases b; cases c) simp_all

lemma fl_gt_asym: "fl_gt a b \<Longrightarrow> \<not> fl_gt b a"
  by (cases a; cases b) simp_all

lemma fl_not_gt_trans: "a \<noteq> NaN \<Longrightarrow> \<not> fl_gt a b \<Longrightarrow> fl_gt c b \<Longrightarrow> fl_gt c a"
  by (cases a; cases b; cases c) simp_all

subsection \<open>The loop of \<open>find_best_match\<close>\<close>

text \<open>
  The loop, from any starting \<open>best_doc\<close> and \<open>highest_score\<close>, when \<open>np.dot\<close> gives the
  score \<open>sc d\<close> for every remaining chunk \<open>d\<close> and none of them is NaN: when no score is
  above \<open>highest_score\<close> the starting \<open>best_doc\<close> is returned; otherwise the list splits at
  the chunk returned, with strictly lower scores before it and no higher score after it.
\<close>

lemma best_loop_result:
  assumes "\<forall>d \<in> set docs. np_dot q (encode (content d)) = Inr (sc d) \<and> sc d \<noteq> NaN"
  shows "(if \<forall>d \<in> set docs. \<not> fl_gt (sc d) hi
          then fst (best_loop np_dot encode q docs best hi calls) = Inr best
          else \<exists>pre d post. docs = pre @ d # post
                 \<and> fst (best_loop np_dot encode q docs best hi calls) = Inr (Some d)
                 \<and> fl_gt (sc d) hi
                 \<and> (\<forall>x \<in> set pre. fl_gt (sc d) (sc x))
                 \<and> (\<forall>x \<in> set post. \<not> fl_gt (sc x) (sc d)))"
  using assms
proof (induction docs arbitrary: best hi calls)
  case Nil
  show ?case by simp
next
  case (Cons doc docs)
  from Cons.prems
  have rest: "\<forall>d \<in> set docs. np_dot q (encode (content d)) = Inr (sc d) \<and> sc d \<noteq> NaN"
    and np: "np_dot q (encode (content doc)) = Inr (sc doc)"
    and num: "sc doc \<noteq> NaN"
    by simp_all
  show ?case
  proof (cases "fl_gt (sc doc) hi")
    case True
    then have step: "best_loop np_dot encode q (doc # docs) best hi calls =
        best_loop np_dot encode q docs (Some doc) (sc doc) (calls @ [content doc])"
      by (simp add: np)
    note IH = Cons.IH [OF rest, of "sc doc" "Some doc" "calls @ [content doc]"]
    show ?thesis
    proof (cases "\<forall>d \<in> set docs. \<not> fl_gt (sc d) (sc doc)")
      case all: True
      with IH have "fst (best_loop np_dot encode q docs (Some doc) (sc doc) (calls @ [content doc]))
          = Inr (Some doc)"
        by simp
      with True all step have "doc # docs = [] @ doc # docs
          \<and> fst (best_loop np_dot encode q (doc # docs) best hi calls) = Inr (Some doc)
          \<and> fl_gt (sc doc) hi \<and> (\<forall>x \<in> set []. fl_gt (sc doc) (sc x))
          \<and> (\<forall>x \<in> set docs. \<not> fl_gt (sc x) (sc doc))"
        by simp
      then have "\<exists>pre d post. doc # docs = pre @ d # post
          \<and> fst (best_loop np_dot encode q (doc # docs) best hi calls) = Inr (Some d)
          \<and> fl_gt (sc d) hi \<and> (\<forall>x \<in> set pre. fl_gt (sc d) (sc x))
          \<and> (\<forall>x \<in> set post. \<not> fl_gt (sc x) (sc d))"
        by blast
      with True show ?thesis by auto
    next
      case some: False
      with IH obtain pre d post where r: "docs = pre @ d # post"
          "fst (best_loop np_dot encode q docs (Some doc) (sc doc) (calls @ [content doc]))
             = Inr (Some d)"
          "fl_gt (sc d) (sc doc)" "\<forall>x \<in> set pre. fl_gt (sc d) (sc x)"
          "\<forall>x \<in> set post. \<not> fl_gt (sc x) (sc d)"
        by auto
      from r(3) True have above: "fl_gt (sc d) hi"
        by (rule fl_gt_trans)
      from r above step have "doc # docs = (doc # pre) @ d # post
          \<and> fst (best_loop np_dot encode q (doc # docs) best hi calls) = Inr (Some d)
          \<and> fl_gt (sc d) hi \<and> (\<forall>x \<in> set (doc # pre). fl_gt (sc d) (sc x))
          \<and> (\<forall>x \<in> set post. \<not> fl_gt (sc x) (sc d))"
        by simp
      then have "\<exists>pre d post. doc # docs = pre @ d # post
          \<and> fst (best_loop np_dot encode q (doc # docs) best hi calls) = Inr (Some d)
          \<and> fl_gt (sc d) hi \<and> (\<forall>x \<in> set pre. fl_gt (sc d) (sc x))
          \<and> (\<forall>x \<in> set post. \<not> fl_gt (sc x) (sc d))"
        by blast
      with True show ?thesis by auto
    qed
  next
    case False
    then have step: "best_loop np_dot encode q (doc # docs) best hi calls =
        best_loop np_dot encode q docs best hi (calls @ [content doc])"
      by (simp add: np)
    note IH = Cons.IH [OF rest, of hi best "calls @ [content doc]"]
    show ?thesis
    proof (cases "\<forall>d \<in> set docs. \<not> fl_gt (sc d) hi")
      case all: True
      with IH False step show ?thesis by simp
    next
      case some: False
      with IH obtain pre d post where r: "docs = pre @ d # post"
          "fst (best_loop np_dot encode q docs best hi (calls @ [content doc])) = Inr (Some d)"
          "fl_gt (sc d) hi" "\<forall>x \<in> set pre. fl_gt (sc d) (sc x)"
          "\<forall>x \<in> set post. \<not> fl_gt (sc x) (sc d)"
        by auto
      from num \<open>\<not> fl_gt (sc doc) hi\<close> r(3) have lower: "fl_gt (sc d) (sc doc)"
        by (rule fl_not_gt_trans)
      from r lower step have "doc # docs = (doc # pre) @ d # post
          \<and> fst (best_loop np_dot encode q (doc # docs) best hi calls) = Inr (Some d)
          \<and> fl_gt (sc d) hi \<and> (\<forall>x \<in> set (doc # pre). fl_gt (sc d) (sc x))
          \<and> (\<forall>x \<in> set post. \<not> fl_gt (sc x) (sc d))"
        by simp
      then have "\<exists>pre d post. doc # docs = pre @ d # post
          \<and> fst (best_loop np_dot encode q (doc # docs) best hi calls) = Inr (Some d)
          \<and> fl_gt (sc d) hi \<and> (\<forall>x \<in> set pre. fl_gt (sc d) (sc x))
          \<and> (\<forall>x \<in> set post. \<not> fl_gt (sc x) (sc d))"
        by blast
      with some show ?thesis by auto
    qed
  qed
qed

lemma best_loop_calls:
  assumes "\<forall>d \<in> set docs. np_dot q (encode (content d)) = Inr (sc d)"
  shows "snd (best_loop np_dot encode q docs best hi calls) = calls @ map content docs"
  using assms
  by (induction docs arbitrary: best hi calls) simp_all

lemma find_best_match_calls:
  assumes "documents \<noteq> []"
    and "\<forall>d \<in> set documents. np_dot (encode query) (encode (content d)) = Inr (sc d)"
  shows "snd (find_best_match np_dot query documents encode) = query # map content documents"
  using assms(1)
    best_loop_calls [where docs = documents and np_dot = np_dot and q = "encode query"
      and encode = encode and sc = sc, OF assms(2)]
  by (simp add: find_best_match_def)

text \<open>
  Where the search does return the first chunk of maximal score: when the scores
  \<open>np.dot\<close> computes are numbers and one of them is above \<open>-1\<close>, the initial
  \<open>highest_score\<close>.
\<close>

lemma find_best_match_first_maximum:
  assumes "documents \<noteq> []"
    and "\<forall>d \<in> set documents.
           np_dot (encode query) (encode (content d)) = Inr (sc d) \<and> sc d \<noteq> NaN"
    and "\<exists>d \<in> set documents. fl_gt (sc d) (Fin (- 1))"
  shows "\<exists>earlier best later. documents = earlier @ best # later
           \<and> fst (find_best_match np_dot query documents encode) = Inr (Some best)
           \<and> (\<forall>x \<in> set earlier. fl_gt (sc best) (sc x))
           \<and> (\<forall>x \<in> set later. \<not> fl_gt (sc x) (sc best))"
proof -
  have fbm: "find_best_match np_dot query documents encode =
      best_loop np_dot encode (encode query) documents None (Fin (- 1)) [query]"
    using assms(1) by (simp add: find_best_match_def)
  from assms(3) have "\<not> (\<forall>d \<in> set documents. \<not> fl_gt (sc d) (Fin (- 1)))"
    by blast
  with best_loop_result [where docs = documents and np_dot = np_dot and q = "encode query"
      and encode = encode and sc = sc and hi = "Fin (- 1)" and best = None
      and calls = "[query]", OF assms(2)]
  have "\<exists>pre d post. documents = pre @ d # post
      \<and> fst (best_loop np_dot encode (encode query) documents None (Fin (- 1)) [query])
          = Inr (Some d)
      \<and> fl_gt (sc d) (Fin (- 1))
      \<and> (\<forall>x \<in> set pre. fl_gt (sc d) (sc x))
      \<and> (\<forall>x \<in> set post. \<not> fl_gt (sc x) (sc d))"
    by simp
  then show ?thesis
    unfolding fbm by blast
qed

lemma find_best_match_scenario:
  "find_best_match exact_int_dot (lit ''What about hotels?'')
       [meals_chunk, hotels_chunk, hotels_copy] scenario_encode =
     (Inr (Some hotels_chunk),
      [lit ''What about hotels?'', content meals_chunk, content hotels_chunk, content hotels_copy])"
  by (simp add: find_best_match_def scenario_encode_def exact_int_dot_def
      meals_chunk_def hotels_chunk_def hotels_copy_def lit_def)

text \<open>
  Claim C1 says that for every non-empty document list and every query
  \<open>find_best_match\<close> returns the chunk of maximal dot product, the earliest among equal
  maxima. The code does not: with the unit vectors of \<open>stub_encode\<close> the only chunk of
  the list scores exactly \<open>-1\<close>; \<open>highest_score\<close> starts at \<open>-1\<close> and is replaced only by
  a score strictly above it, so \<open>best_doc\<close> stays \<open>None\<close> and the search over a
  non-empty list returns \<open>None\<close>, after encoding the query and the chunk.
\<close>

theorem find_best_match_sentinel_miss:
  "exact_int_dot (stub_encode (lit ''q'')) (stub_encode (content hotels_chunk)) = Inr (Fin (- 1))
   \<and> find_best_match exact_int_dot (lit ''q'') [hotels_chunk] stub_encode
       = (Inr None, [lit ''q'', content hotels_chunk])"
  by (simp add: find_best_match_def stub_encode_def exact_int_dot_def hotels_chunk_def lit_def)

text \<open>
  Claim C4. On the empty document list \<open>find_best_match\<close> returns \<open>None\<close> for every
  query and every embedding model: nothing is raised and nothing is encoded.
\<close>

theorem find_best_match_empty:
  "find_best_match np_dot query [] encode = (Inr None, [])"
  by (simp add: find_best_match_def)

section \<open>Properties of the rewriting and of the chat turn\<close>

text \<open>
  Claim C5. With an empty chat history \<open>rewrite_query\<close> returns the query it was given,
  unchanged, and sends no request to the client.
\<close>

theorem rewrite_query_empty_history:
  "rewrite_query user_input [] client = (Inr user_input, [])"
  by (simp add: rewrite_query_def)

lemma append_loop_eq: "append_loop full msgs = full @ msgs"
  by (induction msgs arbitrary: full) simp_all

lemma system_msg_parts:
  "\<exists>pre mid post. system_msg d = pre @ title d @ mid @ content d @ post"
proof -
  let ?pre = "[10] @ lit ''            You are a helpful assistant. Use the following context to answer the user''
     @ [39] @ lit ''s question.''
     @ [10] @ lit ''            ''
     @ [10] @ lit ''            CONTEXT:''
     @ [10] @ lit ''            '' @ lit ''Source: ''"
  let ?mid = "[10] @ lit ''Content: ''"
  let ?post = "[10] @ lit ''            ''"
  have "system_msg d = ?pre @ title d @ ?mid @ content d @ ?post"
    by (simp add: system_msg_def context_text_def)
  then show ?thesis by blast
qed

lemma chat_turn_answered:
  assumes "prompt \<noteq> []"
    and "fst (rewrite_query prompt messages client) = Inr search_query"
    and "fst (find_best_match np_dot search_query documents encode) = Inr (Some d)"
    and "client \<lparr>req_messages = \<lparr>role = lit ''system'', msg_content = system_msg d\<rparr> # messages
              @ [\<lparr>role = lit ''user'', msg_content = prompt\<rparr>],
            req_model = lit ''llama-3.3-70b-versatile'', req_temperature = 1 / 2\<rparr> = Inr answer"
  shows "chat_turn np_dot (Some prompt) messages documents client encode =
     \<lparr>transcript = messages @ [\<lparr>role = lit ''user'', msg_content = prompt\<rparr>,
        \<lparr>role = lit ''assistant'', msg_content = answer\<rparr>],
      shown = [ChatMessage (lit ''user'') prompt, StatusOpen (lit ''Thinking...''),
         StatusWrite (lit ''Understanding context...''),
         StatusWrite (lit ''Searching for: *'' @ [39] @ search_query @ [39] @ lit ''*''),
         StatusWrite (lit ''Found relevant info!''),
         ChatMessage (lit ''assistant'') answer,
         StatusUpdate (lit ''Complete!'') (lit ''complete'') (Some False)],
      llm_requests = snd (rewrite_query prompt messages client) @
        [\<lparr>req_messages = \<lparr>role = lit ''system'', msg_content = system_msg d\<rparr> # messages
              @ [\<lparr>role = lit ''user'', msg_content = prompt\<rparr>],
          req_model = lit ''llama-3.3-70b-versatile'', req_temperature = 1 / 2\<rparr>],
      encode_calls = snd (find_best_match np_dot search_query documents encode),
      raised = None\<rparr>"
  using assms by (simp add: chat_turn_def Let_def append_loop_eq)

lemma chat_turn_generation_raises:
  assumes "prompt \<noteq> []"
    and "fst (rewrite_query prompt messages client) = Inr search_query"
    and "fst (find_best_match np_dot search_query documents encode) = Inr (Some d)"
    and "client \<lparr>req_messages = \<lparr>role = lit ''system'', msg_content = system_msg d\<rparr> # messages
              @ [\<lparr>role = lit ''user'', msg_content = prompt\<rparr>],
            req_model = lit ''llama-3.3-70b-versatile'', req_temperature = 1 / 2\<rparr> = Inl e"
  shows "transcript (chat_turn np_dot (Some prompt) messages documents client encode) = messages
    \<and> raised (chat_turn np_dot (Some prompt) messages documents client encode) = Some e"
  using assms by (simp add: chat_turn_def Let_def append_loop_eq)

lemma chat_turn_found_requests:
  assumes "prompt \<noteq> []"
    and "fst (rewrite_query prompt messages client) = Inr search_query"
    and "fst (find_best_match np_dot search_query documents encode) = Inr (Some d)"
  shows "llm_requests (chat_turn np_dot (Some prompt) messages documents client encode) =
       snd (rewrite_query prompt messages client) @
         [\<lparr>req_messages = \<lparr>role = lit ''system'', msg_content = system_msg d\<rparr> # messages
              @ [\<lparr>role = lit ''user'', msg_content = prompt\<rparr>],
           req_model = lit ''llama-3.3-70b-versatile'', req_temperature = 1 / 2\<rparr>]"
  using assms by (simp add: chat_turn_def Let_def append_loop_eq split: sum.splits)

lemma chat_turn_not_found:
  assumes "prompt \<noteq> []"
    and "fst (rewrite_query prompt messages client) = Inr search_query"
    and "fst (find_best_match np_dot search_query documents encode) = Inr None"
  shows "chat_turn np_dot (Some prompt) messages documents client encode =
     \<lparr>transcript = messages,
      shown = [ChatMessage (lit ''user'') prompt, StatusOpen (lit ''Thinking...''),
         StatusWrite (lit ''Understanding context...''),
         StatusWrite (lit ''Searching for: *'' @ [39] @ search_query @ [39] @ lit ''*''),
         Warning not_found_warning,
         StatusUpdate (lit ''No info found'') (lit ''error'') None],
      llm_requests = snd (rewrite_query prompt messages client),
      encode_calls = snd (find_best_match np_dot search_query documents encode),
      raised = None\<rparr>"
  using assms by (simp add: chat_turn_def Let_def)

lemma chat_turn_extends:
  "\<exists>added. transcript (chat_turn np_dot chat_input messages documents client encode)
     = messages @ added"
  by (simp add: chat_turn_def Let_def split: option.splits sum.splits)

text \<open>
  Claim C6. In a turn whose search returns no match the warning shown is the fixed text
  \<open>not_found_warning\<close>, followed by the status "No info found", and the transcript is
  what it was: neither the question nor an answer is appended, and no request beyond the
  rewriting is sent.
\<close>

theorem chat_turn_declined:
  assumes "prompt \<noteq> []"
    and "fst (rewrite_query prompt messages client) = Inr search_query"
    and "fst (find_best_match np_dot search_query documents encode) = Inr None"
  shows "transcript (chat_turn np_dot (Some prompt) messages documents client encode) = messages
    \<and> Warning not_found_warning
        \<in> set (shown (chat_turn np_dot (Some prompt) messages documents client encode))
    \<and> last (shown (chat_turn np_dot (Some prompt) messages documents client encode))
        = StatusUpdate (lit ''No info found'') (lit ''error'') None
    \<and> llm_requests (chat_turn np_dot (Some prompt) messages documents client encode)
        = snd (rewrite_query prompt messages client)
    \<and> raised (chat_turn np_dot (Some prompt) messages documents client encode) = None"
  by (simp add: chat_turn_not_found [OF assms])

theorem chat_turn_declined_witness:
  "transcript (chat_turn exact_int_dot (Some (lit ''What about hotels?'')) [] []
       canned_client scenario_encode) = []
   \<and> Warning not_found_warning
        \<in> set (shown (chat_turn exact_int_dot (Some (lit ''What about hotels?'')) [] []
             canned_client scenario_encode))"
proof -
  have p: "lit ''What about hotels?'' \<noteq> []"
    by (simp add: lit_def)
  have rw: "fst (rewrite_query (lit ''What about hotels?'') [] canned_client)
      = Inr (lit ''What about hotels?'')"
    by (simp add: rewrite_query_def)
  have nf: "fst (find_best_match exact_int_dot (lit ''What about hotels?'') [] scenario_encode)
      = Inr None"
    by (simp add: find_best_match_def)
  from chat_turn_declined [OF p rw nf] show ?thesis by blast
qed

text \<open>
  Claim C7, as the code has it. In a turn whose search returns a match and whose
  generation call returns, the transcript afterwards is the transcript before, followed
  by the user's original query and then by the answer the client gave to the generation
  request; and after any turn whatever, also one that an exception ended, the earlier
  transcript is still there, unchanged and in order, as a prefix.
\<close>

theorem chat_turn_appends_two:
  assumes "prompt \<noteq> []"
    and "fst (rewrite_query prompt messages client) = Inr search_query"
    and "fst (find_best_match np_dot search_query documents encode) = Inr (Some d)"
    and "client \<lparr>req_messages = \<lparr>role = lit ''system'', msg_content = system_msg d\<rparr> # messages
              @ [\<lparr>role = lit ''user'', msg_content = prompt\<rparr>],
            req_model = lit ''llama-3.3-70b-versatile'', req_temperature = 1 / 2\<rparr> = Inr answer"
  shows "transcript (chat_turn np_dot (Some prompt) messages documents client encode) =
       messages @ [\<lparr>role = lit ''user'', msg_content = prompt\<rparr>,
         \<lparr>role = lit ''assistant'', msg_content = answer\<rparr>]
    \<and> (\<forall>any_dot any_input any_documents any_client any_encode. \<exists>added.
          transcript (chat_turn (any_dot :: 'a dot_fun) any_input messages any_documents
             any_client any_encode) = messages @ added)"
  by (simp add: chat_turn_answered [OF assms] chat_turn_extends)

theorem chat_turn_appends_two_witness:
  "transcript (chat_turn exact_int_dot (Some (lit ''What about hotels?'')) []
       [meals_chunk, hotels_chunk] canned_client scenario_encode) =
     [\<lparr>role = lit ''user'', msg_content = lit ''What about hotels?''\<rparr>,
      \<lparr>role = lit ''assistant'', msg_content = lit ''Hotels are covered up to $200 per night.''\<rparr>]"
proof -
  have p: "lit ''What about hotels?'' \<noteq> []"
    by (simp add: lit_def)
  have rw: "fst (rewrite_query (lit ''What about hotels?'') [] canned_client)
      = Inr (lit ''What about hotels?'')"
    by (simp add: rewrite_query_def)
  have f: "fst (find_best_match exact_int_dot (lit ''What about hotels?'')
      [meals_chunk, hotels_chunk] scenario_encode) = Inr (Some hotels_chunk)"
    by (simp add: find_best_match_def scenario_encode_def exact_int_dot_def
        meals_chunk_def hotels_chunk_def lit_def)
  have a: "canned_client \<lparr>req_messages =
        \<lparr>role = lit ''system'', msg_content = system_msg hotels_chunk\<rparr> # []
          @ [\<lparr>role = lit ''user'', msg_content = lit ''What about hotels?''\<rparr>],
        req_model = lit ''llama-3.3-70b-versatile'', req_temperature = 1 / 2\<rparr>
      = Inr (lit ''Hotels are covered up to $200 per night.'')"
    by (simp add: canned_client_def)
  from chat_turn_appends_two [OF p rw f a] show ?thesis
    by simp
qed

text \<open>
  The claim as it is written fails: the search of this turn returns a match, the
  generation call raises, nothing catches the exception, and the turn ends with nothing
  appended to the transcript.
\<close>

theorem chat_turn_generation_raises_counterexample:
  "fst (find_best_match exact_int_dot (lit ''What about hotels?'') [meals_chunk, hotels_chunk]
      scenario_encode) = Inr (Some hotels_chunk)
   \<and> transcript (chat_turn exact_int_dot (Some (lit ''What about hotels?'')) []
        [meals_chunk, hotels_chunk] failing_client scenario_encode) = []
   \<and> raised (chat_turn exact_int_dot (Some (lit ''What about hotels?'')) []
        [meals_chunk, hotels_chunk] failing_client scenario_encode) = Some APIError"
proof -
  have p: "lit ''What about hotels?'' \<noteq> []"
    by (simp add: lit_def)
  have rw: "fst (rewrite_query (lit ''What about hotels?'') [] failing_client)
      = Inr (lit ''What about hotels?'')"
    by (simp add: rewrite_query_def)
  have f: "fst (find_best_match exact_int_dot (lit ''What about hotels?'')
      [meals_chunk, hotels_chunk] scenario_encode) = Inr (Some hotels_chunk)"
    by (simp add: find_best_match_def scenario_encode_def exact_int_dot_def
        meals_chunk_def hotels_chunk_def lit_def)
  have a: "failing_client \<lparr>req_messages =
        \<lparr>role = lit ''system'', msg_content = system_msg hotels_chunk\<rparr> # []
          @ [\<lparr>role = lit ''user'', msg_content = lit ''What about hotels?''\<rparr>],
        req_model = lit ''llama-3.3-70b-versatile'', req_temperature = 1 / 2\<rparr>
      = Inl APIError"
    by (simp add: failing_client_def)
  from chat_turn_generation_raises [OF p rw f a] f show ?thesis
    by simp
qed

text \<open>
  Claim C8. In a turn whose search returns the chunk \<open>d\<close>, the last request sent to the
  client is the generation request: its messages are a system message, whose content
  contains the title and the content of \<open>d\<close>, then the whole prior transcript in order,
  then the current user query as the final message.
\<close>

theorem chat_turn_generation_request:
  assumes "prompt \<noteq> []"
    and "fst (rewrite_query prompt messages client) = Inr search_query"
    and "fst (find_best_match np_dot search_query documents encode) = Inr (Some d)"
  shows "llm_requests (chat_turn np_dot (Some prompt) messages documents client encode) =
       snd (rewrite_query prompt messages client) @
         [\<lparr>req_messages = \<lparr>role = lit ''system'', msg_content = system_msg d\<rparr> # messages
              @ [\<lparr>role = lit ''user'', msg_content = prompt\<rparr>],
           req_model = lit ''llama-3.3-70b-versatile'', req_temperature = 1 / 2\<rparr>]
    \<and> (\<exists>pre mid post. system_msg d = pre @ title d @ mid @ content d @ post)"
  by (simp add: chat_turn_found_requests [OF assms] system_msg_parts)

theorem chat_turn_generation_request_witness:
  "llm_requests (chat_turn exact_int_dot (Some (lit ''What about hotels?'')) []
       [meals_chunk, hotels_chunk] canned_client scenario_encode) =
     [\<lparr>req_messages = [\<lparr>role = lit ''system'', msg_content = system_msg hotels_chunk\<rparr>,
          \<lparr>role = lit ''user'', msg_content = lit ''What about hotels?''\<rparr>],
       req_model = lit ''llama-3.3-70b-versatile'', req_temperature = 1 / 2\<rparr>]"
proof -
  have p: "lit ''What about hotels?'' \<noteq> []"
    by (simp add: lit_def)
  have rw: "fst (rewrite_query (lit ''What about hotels?'') [] canned_client)
      = Inr (lit ''What about hotels?'')"
    by (simp add: rewrite_query_def)
  have f: "fst (find_best_match exact_int_dot (lit ''What about hotels?'')
      [meals_chunk, hotels_chunk] scenario_encode) = Inr (Some hotels_chunk)"
    by (simp add: find_best_match_def scenario_encode_def exact_int_dot_def
        meals_chunk_def hotels_chunk_def lit_def)
  from chat_turn_generation_request [OF p rw f] show ?thesis
    by (simp add: rewrite_query_def)
qed

section \<open>Properties of the loading of documents\<close>

lemma files_loop_docs:
  "fst (files_loop files documents ui) = documents @ concat (map (\<lambda>f. fst (process_file f)) files)"
  by (induction files arbitrary: documents ui) simp_all

lemma process_file_broken: "fst (process_file broken_file) = []"
  by (simp add: process_file_def broken_file_def endswith_def lit_def)

lemma process_file_short: "fst (process_file short_file) = []"
  by (simp add: process_file_def short_file_def endswith_def lit_def process_text_def
      split_paragraphs_def strip_def lstrip_def rstrip_def is_space_def)

text \<open>
  Claim C10. With no uploaded file the document list is the single built-in chunk titled
  "Demo: Travel", so it is not empty; and the document list is empty exactly when files
  were uploaded and every one of them gave no chunk.
\<close>

theorem load_documents_demo_or_files:
  "fst (load_documents []) =
       [\<lparr>title = lit ''Demo: Travel'',
         content = lit ''Meals covered up to $50/day. Hotels up to $200/night.''\<rparr>]
   \<and> (fst (load_documents uploaded_files) = [] \<longleftrightarrow>
        uploaded_files \<noteq> [] \<and> (\<forall>f \<in> set uploaded_files. fst (process_file f) = []))"
proof -
  have a: "fst (load_documents []) =
       [\<lparr>title = lit ''Demo: Travel'',
         content = lit ''Meals covered up to $50/day. Hotels up to $200/night.''\<rparr>]"
    by (simp add: load_documents_def demo_documents_def)
  have b: "fst (load_documents uploaded_files) = [] \<longleftrightarrow>
        uploaded_files \<noteq> [] \<and> (\<forall>f \<in> set uploaded_files. fst (process_file f) = [])"
  proof (cases "uploaded_files = []")
    case True
    then show ?thesis by (simp add: load_documents_def demo_documents_def)
  next
    case False
    then have "fst (load_documents uploaded_files) =
        concat (map (\<lambda>f. fst (process_file f)) uploaded_files)"
      by (simp add: load_documents_def Let_def files_loop_docs)
    with False show ?thesis by simp
  qed
  from a b show ?thesis by blast
qed

theorem load_documents_demo_or_files_witness:
  "fst (load_documents [broken_file, short_file]) = [] \<and> fst (load_documents []) \<noteq> []"
proof -
  have all_empty: "[broken_file, short_file] \<noteq> []
      \<and> (\<forall>f \<in> set [broken_file, short_file]. fst (process_file f) = [])"
    by (simp add: process_file_broken process_file_short)
  from load_documents_demo_or_files [of "[broken_file, short_file]"] all_empty
  show ?thesis by simp
qed

end
